theory Spec2Isabelle
  imports Complex_Main
begin

section \<open>Python strings\<close>

text \<open>
  A Python \<open>str\<close> is modelled as a \<open>string\<close>: a list of characters, each a code point
  below 256. The string methods the program calls are written out below with Python's
  behaviour on that range.
\<close>

text \<open>\<open>s.startswith(p)\<close>, returning the rest of \<open>s\<close> after the prefix when it is there.\<close>

fun strip_prefix :: "string \<Rightarrow> string \<Rightarrow> string option" where
  "strip_prefix [] s = Some s"
| "strip_prefix (p # ps) [] = None"
| "strip_prefix (p # ps) (c # cs) = (if p = c then strip_prefix ps cs else None)"

definition startswith :: "string \<Rightarrow> string \<Rightarrow> bool" where
  "startswith s p = (strip_prefix p s \<noteq> None)"

text \<open>\<open>sub in s\<close>: \<open>sub\<close> occurs in \<open>s\<close> as a contiguous substring.\<close>

fun contains :: "string \<Rightarrow> string \<Rightarrow> bool" where
  "contains sub [] = (sub = [])"
| "contains sub (c # cs) = (if startswith (c # cs) sub then True else contains sub cs)"

text \<open>\<open>sep.join(xs)\<close>.\<close>

fun join :: "string \<Rightarrow> string list \<Rightarrow> string" where
  "join sep [] = []"
| "join sep [x] = x"
| "join sep (x # y # ys) = x @ sep @ join sep (y # ys)"

text \<open>
  \<open>c.upper()\<close> and \<open>c.lower()\<close> of one character. Lower-casing stays below 256 for every
  code point below 256. Upper-casing is written for the code points whose upper case is
  again one code point below 256; the program upper-cases only the two section names.
\<close>

definition upper_char :: "char \<Rightarrow> char" where
  "upper_char c =
     (let n = (of_char c :: nat) in
      if (97 \<le> n \<and> n \<le> 122) \<or> (224 \<le> n \<and> n \<le> 254 \<and> n \<noteq> 247)
      then char_of (n - 32) else c)"

definition lower_char :: "char \<Rightarrow> char" where
  "lower_char c =
     (let n = (of_char c :: nat) in
      if (65 \<le> n \<and> n \<le> 90) \<or> (192 \<le> n \<and> n \<le> 222 \<and> n \<noteq> 215)
      then char_of (n + 32) else c)"

definition upper :: "string \<Rightarrow> string" where
  "upper s = map upper_char s"

definition lower :: "string \<Rightarrow> string" where
  "lower s = map lower_char s"

lemma strip_prefix_length:
  "strip_prefix p s = Some r \<Longrightarrow> length s = length p + length r"
  by (induction p s rule: strip_prefix.induct) (auto split: if_splits)

text \<open>
  \<open>s.replace(old, new)\<close>: every occurrence of \<open>old\<close>, left to right and without
  overlap. With an empty \<open>old\<close> Python puts \<open>new\<close> before every character and at the end.
\<close>

function replace_nonempty :: "string \<Rightarrow> string \<Rightarrow> string \<Rightarrow> string" where
  "replace_nonempty old new [] = []"
| "replace_nonempty old new (c # cs) =
     (case (if old = [] then None else strip_prefix old (c # cs)) of
        Some rest \<Rightarrow> new @ replace_nonempty old new rest
      | None \<Rightarrow> c # replace_nonempty old new cs)"
  by pat_completeness auto
termination
proof (relation "measure (\<lambda>(old, new, s). length s)")
  show "wf (measure (\<lambda>(old, new, s). length s))" by simp
next
  fix old new :: string and c :: char and cs x2 :: string
  assume "(if old = [] then None else strip_prefix old (c # cs)) = Some x2"
  then have "old \<noteq> []" and "strip_prefix old (c # cs) = Some x2"
    by (auto split: if_splits)
  then have "length x2 < length (c # cs)"
    using strip_prefix_length [of old "c # cs" x2] by (cases old) auto
  then show "((old, new, x2), (old, new, c # cs)) \<in> measure (\<lambda>(old, new, s). length s)"
    by simp
next
  fix old new :: string and c :: char and cs :: string
  show "((old, new, cs), (old, new, c # cs)) \<in> measure (\<lambda>(old, new, s). length s)"
    by simp
qed

definition replace :: "string \<Rightarrow> string \<Rightarrow> string \<Rightarrow> string" where
  "replace s old new =
     (if old = [] then new @ concat (map (\<lambda>c. c # new) s)
      else replace_nonempty old new s)"

text \<open>\<open>xs[:k]\<close>: a negative \<open>k\<close> counts from the end of the list.\<close>

definition slice_to :: "int \<Rightarrow> 'a list \<Rightarrow> 'a list" where
  "slice_to k xs =
     (if 0 \<le> k then take (nat k) xs else take (length xs - nat (- k)) xs)"

section \<open>Dictionaries\<close>

text \<open>
  A Python \<open>dict\<close> is an association list in insertion order with unique keys.
  \<open>dict_get\<close> is \<open>d.get(k)\<close>, \<open>dict_set\<close> is \<open>d[k] = v\<close> (the key keeps its place when it
  is already there) and \<open>dict_del\<close> is the dictionary without the key.
\<close>

type_synonym ('k, 'v) dict = "('k \<times> 'v) list"

definition dict_get :: "('k, 'v) dict \<Rightarrow> 'k \<Rightarrow> 'v option" where
  "dict_get d k = map_of d k"

fun dict_set :: "('k, 'v) dict \<Rightarrow> 'k \<Rightarrow> 'v \<Rightarrow> ('k, 'v) dict" where
  "dict_set [] k v = [(k, v)]"
| "dict_set ((k', v') # d) k v =
     (if k' = k then (k, v) # d else (k', v') # dict_set d k v)"

definition dict_del :: "'k \<Rightarrow> ('k, 'v) dict \<Rightarrow> ('k, 'v) dict" where
  "dict_del k d = filter (\<lambda>kv. fst kv \<noteq> k) d"

definition dict_keys :: "('k, 'v) dict \<Rightarrow> 'k list" where
  "dict_keys d = map fst d"

definition dict_values :: "('k, 'v) dict \<Rightarrow> 'v list" where
  "dict_values d = map snd d"

section \<open>The vector index\<close>

text \<open>
  A chunk of the index is a document with its text and the \<open>source\<close> entry of its metadata,
  which the index build sets on every chunk to \<open>section:name\<close>.
\<close>

record doc =
  page_content :: string
  source :: string

text \<open>
  The index holds the chunks in insertion order. The embedding service and the vector
  distance are outside the program: \<open>distance q t\<close> stands for the distance between the
  embeddings of the query \<open>q\<close> and of a chunk text \<open>t\<close>, of which only the order matters.
  \<open>similarity_search\<close> returns the \<open>k\<close> nearest chunks by increasing distance, ties in
  insertion order.
\<close>

record vector_index =
  docstore :: "doc list"
  distance :: "string \<Rightarrow> string \<Rightarrow> nat"

definition similarity_search :: "vector_index \<Rightarrow> string \<Rightarrow> nat \<Rightarrow> doc list" where
  "similarity_search db query k =
     take k (sort_key (\<lambda>d. distance db query (page_content d)) (docstore db))"

definition retrieve_context :: "vector_index \<Rightarrow> string \<Rightarrow> nat \<Rightarrow> string" where
  "retrieve_context db code k =
     join ''\<newline>\<newline>'' (map page_content (similarity_search db code k))"

section \<open>Tag extraction\<close>

text \<open>
  \<open>re.findall(r"<(modus(?:-wc)?-[a-z-]+)", code)\<close>. \<open>match_tag s\<close> matches the pattern
  at the start of \<open>s\<close> and returns the group with the text after the match: the optional
  \<open>-wc\<close> is tried first and given up when the rest of the pattern fails after it.
\<close>

definition is_tag_char :: "char \<Rightarrow> bool" where
  "is_tag_char c = (c = CHR ''-'' \<or> (97 \<le> (of_char c :: nat) \<and> (of_char c :: nat) \<le> 122))"

definition match_rest :: "string \<Rightarrow> string \<Rightarrow> (string \<times> string) option" where
  "match_rest pre r =
     (if takeWhile is_tag_char r = [] then None
      else Some (pre @ takeWhile is_tag_char r, dropWhile is_tag_char r))"

definition match_tag :: "string \<Rightarrow> (string \<times> string) option" where
  "match_tag s =
     (case strip_prefix ''<modus'' s of
        None \<Rightarrow> None
      | Some r \<Rightarrow>
          (case (case strip_prefix ''-wc-'' r of
                   None \<Rightarrow> None
                 | Some r2 \<Rightarrow> match_rest ''modus-wc-'' r2) of
             Some m \<Rightarrow> Some m
           | None \<Rightarrow>
               (case strip_prefix ''-'' r of
                  None \<Rightarrow> None
                | Some r3 \<Rightarrow> match_rest ''modus-'' r3)))"

lemma match_rest_length:
  "match_rest pre r = Some (g, rest) \<Longrightarrow> length rest \<le> length r"
  by (auto simp: match_rest_def length_dropWhile_le split: if_splits)

lemma match_tag_length:
  assumes "match_tag s = Some (g, rest)"
  shows "length rest < length s"
proof -
  from assms obtain r where r: "strip_prefix ''<modus'' s = Some r"
    by (auto simp: match_tag_def split: option.splits)
  then have len: "length s = 6 + length r"
    using strip_prefix_length [of "''<modus''" s r] by simp
  from assms r have "(\<exists>r2. strip_prefix ''-wc-'' r = Some r2 \<and> match_rest ''modus-wc-'' r2 = Some (g, rest))
      \<or> (\<exists>r3. strip_prefix ''-'' r = Some r3 \<and> match_rest ''modus-'' r3 = Some (g, rest))"
    by (auto simp: match_tag_def split: option.splits)
  then show ?thesis
  proof
    assume "\<exists>r2. strip_prefix ''-wc-'' r = Some r2 \<and> match_rest ''modus-wc-'' r2 = Some (g, rest)"
    then obtain r2 where "strip_prefix ''-wc-'' r = Some r2"
      and "match_rest ''modus-wc-'' r2 = Some (g, rest)" by blast
    then show ?thesis
      using strip_prefix_length [of "''-wc-''" r r2] match_rest_length [of "''modus-wc-''" r2 g rest] len
      by simp
  next
    assume "\<exists>r3. strip_prefix ''-'' r = Some r3 \<and> match_rest ''modus-'' r3 = Some (g, rest)"
    then obtain r3 where "strip_prefix ''-'' r = Some r3"
      and "match_rest ''modus-'' r3 = Some (g, rest)" by blast
    then show ?thesis
      using strip_prefix_length [of "''-''" r r3] match_rest_length [of "''modus-''" r3 g rest] len
      by simp
  qed
qed

text \<open>The scan of \<open>findall\<close>: after a match it goes on behind the match, else one character on.\<close>

function findall_tags :: "string \<Rightarrow> string list" where
  "findall_tags [] = []"
| "findall_tags (c # cs) =
     (case match_tag (c # cs) of
        Some (g, rest) \<Rightarrow> g # findall_tags rest
      | None \<Rightarrow> findall_tags cs)"
  by pat_completeness auto
termination
proof (relation "measure length")
  show "wf (measure length)" by simp
next
  fix c :: char and cs :: string and x2 :: "string \<times> string" and g rest :: string
  assume "match_tag (c # cs) = Some x2" and "(g, rest) = x2"
  then have "match_tag (c # cs) = Some (g, rest)" by simp
  then have "length rest < length (c # cs)"
    by (rule match_tag_length)
  then show "(rest, c # cs) \<in> measure length"
    by simp
next
  fix c :: char and cs :: string
  show "(cs, c # cs) \<in> measure length" by simp
qed

text \<open>\<open>list(dict.fromkeys(xs))\<close>: the distinct elements in the order of their first occurrence.\<close>

definition fromkeys :: "'a list \<Rightarrow> 'a list" where
  "fromkeys xs = foldl (\<lambda>acc x. if x \<in> set acc then acc else acc @ [x]) [] xs"

section \<open>Section-aware retrieval\<close>

text \<open>
  The migration state read from the state file is a dictionary; its entry
  \<open>Mapping_v1_v2\<close> maps v1 file names to v2 file names. The two buckets of
  \<open>section_hits\<close> are the fields of a record.
\<close>

type_synonym mapping = "(string, string) dict"

type_synonym retrieval_state = "(string, mapping) dict"

record section_hits =
  v1_component :: "string list"
  v2_component :: "string list"

text \<open>\<open>state.get("Mapping_v1_v2", {}) if state else {}\<close>\<close>

definition state_mapping :: "retrieval_state option \<Rightarrow> mapping" where
  "state_mapping state =
     (case state of
        None \<Rightarrow> []
      | Some st \<Rightarrow>
          if st = [] then []
          else (case dict_get st ''Mapping_v1_v2'' of None \<Rightarrow> [] | Some m \<Rightarrow> m))"

text \<open>
  The exact matches of a source key among the candidates and, when there are none, among
  the 1000 nearest chunks of the empty query.
\<close>

definition exact_hits :: "vector_index \<Rightarrow> doc list \<Rightarrow> string \<Rightarrow> doc list" where
  "exact_hits db all_results source_key =
     (let hits = filter (\<lambda>d. source d = source_key) all_results in
      if hits = []
      then filter (\<lambda>d. source d = source_key) (similarity_search db [] 1000)
      else hits)"

definition v2_branch ::
  "vector_index \<Rightarrow> doc list \<Rightarrow> mapping \<Rightarrow> int \<Rightarrow> string \<Rightarrow> section_hits \<Rightarrow> section_hits" where
  "v2_branch db all_results mapping k_pick v1_key hits =
     (case dict_get mapping v1_key of
        None \<Rightarrow> hits
      | Some v2_file \<Rightarrow>
          if v2_file \<noteq> [] \<and> v2_file \<noteq> ''Not Found'' then
            (let source_key = ''v2_component:'' @ v2_file;
                 picks = slice_to k_pick (exact_hits db all_results source_key)
             in if exact_hits db all_results source_key \<noteq> []
                then hits\<lparr>v2_component := v2_component hits @ map page_content picks\<rparr>
                else hits)
          else hits)"

definition v1_branch :: "doc list \<Rightarrow> int \<Rightarrow> string \<Rightarrow> section_hits \<Rightarrow> section_hits" where
  "v1_branch all_results k_pick v1_key hits =
     (let v1_source = ''v1_component:'' @ v1_key;
          v1_hits = filter (\<lambda>d. source d = v1_source) all_results
      in if v1_hits \<noteq> []
         then hits\<lparr>v1_component := v1_component hits @ map page_content (slice_to k_pick v1_hits)\<rparr>
         else hits)"

text \<open>The body of the loop over the tags.\<close>

definition tag_step ::
  "vector_index \<Rightarrow> doc list \<Rightarrow> mapping \<Rightarrow> int \<Rightarrow> section_hits \<Rightarrow> string \<Rightarrow> section_hits" where
  "tag_step db all_results mapping k_pick hits tag =
     (let v1_key = tag @ ''.tsx'' in
      v1_branch all_results k_pick v1_key (v2_branch db all_results mapping k_pick v1_key hits))"

definition collect_hits ::
  "vector_index \<Rightarrow> string \<Rightarrow> nat \<Rightarrow> int \<Rightarrow> retrieval_state option \<Rightarrow> section_hits" where
  "collect_hits db code k_search k_pick state =
     (let all_results = similarity_search db code k_search;
          tags = fromkeys (findall_tags code);
          mapping = state_mapping state
      in foldl (tag_step db all_results mapping k_pick)
           \<lparr>v1_component = [], v2_component = []\<rparr> tags)"

definition bucket :: "section_hits \<Rightarrow> string \<Rightarrow> string list" where
  "bucket hits section =
     (if section = ''v1_component'' then v1_component hits else v2_component hits)"

text \<open>One block of the result: the header line and the snippets of the section.\<close>

definition section_block :: "section_hits \<Rightarrow> string \<Rightarrow> string" where
  "section_block hits section =
     (let header = replace (upper section) ''_'' '' '';
          snippets = (if bucket hits section = [] then [''<no content>''] else bucket hits section)
      in ''### '' @ header @ ''\<newline>'' @ join ''\<newline>\<newline>'' snippets)"

definition retrieve_context_by_section ::
  "vector_index \<Rightarrow> string \<Rightarrow> nat \<Rightarrow> int \<Rightarrow> retrieval_state option \<Rightarrow> string" where
  "retrieve_context_by_section db code k_search k_pick state =
     (let hits = collect_hits db code k_search k_pick state in
      join ''\<newline>\<newline>'' (map (section_block hits) [''v1_component'', ''v2_component'']))"

text \<open>The text of a bucket in its block: the texts joined by blank lines, or the placeholder.\<close>

definition bucket_text :: "string list \<Rightarrow> string" where
  "bucket_text b = (if b = [] then ''<no content>'' else join ''\<newline>\<newline>'' b)"

section \<open>More string methods\<close>

text \<open>
  \<open>s.strip()\<close> removes the white space at both ends: the code points below 256 for which
  \<open>isspace\<close> holds. \<open>s.strip(chars)\<close> removes, at both ends, every character that occurs
  in \<open>chars\<close>.
\<close>

definition is_space :: "char \<Rightarrow> bool" where
  "is_space c = ((of_char c :: nat) \<in> {9, 10, 11, 12, 13, 28, 29, 30, 31, 32, 133, 160})"

definition strip :: "string \<Rightarrow> string" where
  "strip s = rev (dropWhile is_space (rev (dropWhile is_space s)))"

definition strip_chars :: "string \<Rightarrow> string \<Rightarrow> string" where
  "strip_chars s chars =
     rev (dropWhile (\<lambda>c. c \<in> set chars) (rev (dropWhile (\<lambda>c. c \<in> set chars) s)))"

text \<open>
  \<open>s.splitlines()\<close>: the lines of \<open>s\<close> without their line ends; a line end is one of the
  line boundary characters, or a carriage return with the line feed after it. There is no
  empty last line after a final line end.
\<close>

definition is_linebreak :: "char \<Rightarrow> bool" where
  "is_linebreak c = ((of_char c :: nat) \<in> {10, 11, 12, 13, 28, 29, 30, 133})"

fun splitlines_from :: "string \<Rightarrow> string \<Rightarrow> string list" where
  "splitlines_from cur [] = (if cur = [] then [] else [cur])"
| "splitlines_from cur (c # cs) =
     (if c = CHR 0x0D then
        (case cs of
           [] \<Rightarrow> [cur]
         | d # ds \<Rightarrow>
             if d = CHR 0x0A then cur # splitlines_from [] ds
             else cur # splitlines_from [] (d # ds))
      else if is_linebreak c then cur # splitlines_from [] cs
      else splitlines_from (cur @ [c]) cs)"

definition splitlines :: "string \<Rightarrow> string list" where
  "splitlines s = splitlines_from [] s"

text \<open>\<open>s.split(sep, 1)[0]\<close> for a one-character \<open>sep\<close>: the text before the first \<open>sep\<close>.\<close>

definition split_first :: "string \<Rightarrow> char \<Rightarrow> string" where
  "split_first s sep = takeWhile (\<lambda>c. c \<noteq> sep) s"

text \<open>The text before the first occurrence of \<open>sub\<close>, when there is one.\<close>

fun find_before :: "string \<Rightarrow> string \<Rightarrow> string option" where
  "find_before sub [] = (if sub = [] then Some [] else None)"
| "find_before sub (c # cs) =
     (if startswith (c # cs) sub then Some []
      else map_option ((#) c) (find_before sub cs))"

section \<open>JSON values\<close>

text \<open>
  The values that \<open>json.loads\<close> returns and that the state holds. A number is an integer
  or a float, taken as the rational it stands for. \<open>json_loads\<close> itself belongs to the
  Python library and is a parameter of the model: \<open>None\<close> stands for a raised exception.
\<close>

datatype json =
    JNull
  | JBool bool
  | JInt int
  | JFloat rat
  | JStr string
  | JArr "json list"
  | JObj "(string \<times> json) list"

text \<open>The truth value of a value in a condition.\<close>

fun truthy :: "json \<Rightarrow> bool" where
  "truthy JNull = False"
| "truthy (JBool b) = b"
| "truthy (JInt n) = (n \<noteq> 0)"
| "truthy (JFloat r) = (r \<noteq> 0)"
| "truthy (JStr s) = (s \<noteq> [])"
| "truthy (JArr xs) = (xs \<noteq> [])"
| "truthy (JObj fs) = (fs \<noteq> [])"

datatype error = AttributeError | GraphRecursionError

section \<open>The migration state and the services\<close>

record migration_state =
  v1_components :: "(string, json) dict"
  v2_components :: "(string, json) dict"
  component_map :: json
  constraints :: json
  migration_plan :: json
  verification_rules :: json
  current_file :: "string option"
  modified_code :: "(string, string) dict"
  action :: string

text \<open>A row of the table of context units.\<close>

record context_unit =
  unit_type :: string
  name :: string
  content :: string

text \<open>
  The prompts of the stages. The model is a function of the prompt text, and the text of
  a stage is fixed but for the values of the state put into it, so a prompt is given by
  its stage and these values.
\<close>

datatype prompt =
    MappingPrompt "string list" "string list"
  | ConstraintsPrompt json
  | PlanPrompt json json
  | RulesPrompt json json json
  | MigratePrompt "(string, json) dict" "(string, json) dict" json json json string
  | VerifyPrompt string json

text \<open>
  What the stages take from outside: the JSON parser, the cached language model, the
  rows of the table of context units in the order of the query, and the order in which
  the interpreter lists a set. Python lists the elements of a set of strings by their
  hashes, which differ from one run of the interpreter to the next: \<open>set_order xs\<close> is
  the list that \<open>list(s)\<close> returns for the set \<open>s\<close> whose elements were added in the order
  \<open>xs\<close>. In every run it lists each element once, in an order that the program does not
  fix.
\<close>

record services =
  json_loads :: "string \<Rightarrow> json option"
  cached_llm_invoke :: "prompt \<Rightarrow> string"
  context_units :: "context_unit list"
  set_order :: "string list \<Rightarrow> string list"

section \<open>The stages\<close>

text \<open>\<open>load_context_units(session, kind)\<close>\<close>

definition unit_value :: "services \<Rightarrow> context_unit \<Rightarrow> json option" where
  "unit_value sv unit =
     (if startswith (strip (content unit)) ''['' \<or> startswith (strip (content unit)) ''{''
      then json_loads sv (content unit)
      else Some (JStr (content unit)))"

definition load_context_units :: "services \<Rightarrow> string \<Rightarrow> (string, json) dict" where
  "load_context_units sv kind =
     foldl (\<lambda>units unit.
              case unit_value sv unit of
                None \<Rightarrow> units
              | Some c \<Rightarrow> dict_set units (name unit) c)
       [] (filter (\<lambda>unit. unit_type unit = kind) (context_units sv))"

text \<open>The loop that attaches the documentation to the components that are dictionaries.\<close>

definition attach_docs :: "(string, json) dict \<Rightarrow> (string, json) dict \<Rightarrow> (string, json) dict" where
  "attach_docs components docs =
     map (\<lambda>(nm, component).
            (nm, case component of
                   JObj fs \<Rightarrow>
                     JObj (dict_set fs ''documentation''
                       (case dict_get docs (replace nm ''.tsx'' []) of
                          None \<Rightarrow> JStr []
                        | Some doc \<Rightarrow> doc))
                 | _ \<Rightarrow> component))
       components"

definition load_context :: "services \<Rightarrow> migration_state \<Rightarrow> migration_state" where
  "load_context sv state =
     (let v1_comps = load_context_units sv ''v1_components'';
          v2_comps = load_context_units sv ''v2_components'';
          v1_docs = load_context_units sv ''v1_docs'';
          v2_docs = load_context_units sv ''v2_docs'';
          plan = load_context_units sv ''migration_plan'';
          rules = load_context_units sv ''verification_rules'';
          constrs = load_context_units sv ''constraints'';
          state1 = state\<lparr>v1_components := attach_docs v1_comps v1_docs,
                         v2_components := attach_docs v2_comps v2_docs,
                         migration_plan := JArr (dict_values plan),
                         verification_rules := JArr (dict_values rules)\<rparr>
      in case dict_values constrs of
           [] \<Rightarrow> state1
         | first # rest \<Rightarrow>
             (case first of
                JObj fs \<Rightarrow>
                  (case dict_get fs ''constraints'' of
                     Some c \<Rightarrow> state1\<lparr>constraints := c\<rparr>
                   | None \<Rightarrow> state1\<lparr>constraints := JArr (dict_values constrs)\<rparr>)
              | _ \<Rightarrow> state1\<lparr>constraints := JArr (dict_values constrs)\<rparr>))"

text \<open>
  \<open>extract_props\<close>. The set \<open>props\<close> is held as the list of its elements in the order
  in which they were added, \<open>set_add\<close> is \<open>props.add\<close>, and \<open>list(props)\<close> is the list that
  the order \<open>order\<close> of the interpreter makes of it.
\<close>

definition set_add :: "'a list \<Rightarrow> 'a \<Rightarrow> 'a list" where
  "set_add xs x = (if x \<in> set xs then xs else xs @ [x])"

definition add_prop :: "string list \<Rightarrow> string \<Rightarrow> string list" where
  "add_prop props line =
     (if contains '':'' line \<and> (contains ''props'' (lower line) \<or> contains ''property'' (lower line))
      then (let prop = strip (split_first line CHR '':'')
            in if prop \<noteq> [] \<and> lower prop \<notin> set [''props'', ''properties'']
               then set_add props prop else props)
      else props)"

definition extract_props :: "(string list \<Rightarrow> string list) \<Rightarrow> json \<Rightarrow> error + string list" where
  "extract_props order doc =
     (if \<not> truthy doc then Inr []
      else (case doc of
              JStr s \<Rightarrow> Inr (order (foldl add_prop [] (splitlines s)))
            | _ \<Rightarrow> Inl AttributeError))"

text \<open>The body of the loops of \<open>analyze_components\<close> and the loops themselves.\<close>

definition analyze_component :: "(string list \<Rightarrow> string list) \<Rightarrow> json \<Rightarrow> error + json" where
  "analyze_component order component =
     (case component of
        JObj fs \<Rightarrow>
          (case extract_props order (case dict_get fs ''documentation'' of
                                 None \<Rightarrow> JStr []
                               | Some doc \<Rightarrow> doc) of
             Inl e \<Rightarrow> Inl e
           | Inr props \<Rightarrow> Inr (JObj (dict_set fs ''props'' (JArr (map JStr props)))))
      | _ \<Rightarrow> Inl AttributeError)"

fun analyze_all ::
  "(string list \<Rightarrow> string list) \<Rightarrow> (string, json) dict \<Rightarrow> error + (string, json) dict" where
  "analyze_all order [] = Inr []"
| "analyze_all order ((nm, component) # rest) =
     (case analyze_component order component of
        Inl e \<Rightarrow> Inl e
      | Inr component' \<Rightarrow>
          (case analyze_all order rest of
             Inl e \<Rightarrow> Inl e
           | Inr rest' \<Rightarrow> Inr ((nm, component') # rest')))"

definition analyze_components ::
  "(string list \<Rightarrow> string list) \<Rightarrow> migration_state \<Rightarrow> error + migration_state" where
  "analyze_components order state =
     (case analyze_all order (v1_components state) of
        Inl e \<Rightarrow> Inl e
      | Inr v1 \<Rightarrow>
          (case analyze_all order (v2_components state) of
             Inl e \<Rightarrow> Inl e
           | Inr v2 \<Rightarrow> Inr (state\<lparr>v1_components := v1, v2_components := v2\<rparr>)))"

text \<open>\<open>response.strip("```json\n").strip("```").strip()\<close>\<close>

definition cleaned_response :: "string \<Rightarrow> string" where
  "cleaned_response response =
     strip (strip_chars (strip_chars response ''```json\<newline>'') ''```'')"

definition generate_mapping :: "services \<Rightarrow> migration_state \<Rightarrow> migration_state" where
  "generate_mapping sv state =
     (let response = cached_llm_invoke sv
            (MappingPrompt (dict_keys (v1_components state)) (dict_keys (v2_components state)))
      in case json_loads sv (cleaned_response response) of
           Some mapping \<Rightarrow> state\<lparr>component_map := mapping\<rparr>
         | None \<Rightarrow> state\<lparr>component_map := JObj []\<rparr>)"

definition generate_constraints :: "services \<Rightarrow> migration_state \<Rightarrow> migration_state" where
  "generate_constraints sv state =
     (let response = cached_llm_invoke sv (ConstraintsPrompt (component_map state))
      in case json_loads sv (cleaned_response response) of
           Some constrs \<Rightarrow> state\<lparr>constraints := constrs\<rparr>
         | None \<Rightarrow> state\<lparr>constraints := JArr []\<rparr>)"

definition generate_plan :: "services \<Rightarrow> migration_state \<Rightarrow> migration_state" where
  "generate_plan sv state =
     (let response = cached_llm_invoke sv
            (PlanPrompt (component_map state) (constraints state))
      in case json_loads sv (cleaned_response response) of
           Some plan \<Rightarrow> state\<lparr>migration_plan := plan\<rparr>
         | None \<Rightarrow> state\<lparr>migration_plan := JArr []\<rparr>)"

definition generate_verification_rules :: "services \<Rightarrow> migration_state \<Rightarrow> migration_state" where
  "generate_verification_rules sv state =
     (let response = cached_llm_invoke sv
            (RulesPrompt (migration_plan state) (constraints state) (component_map state))
      in case json_loads sv (cleaned_response response) of
           Some rules \<Rightarrow> state\<lparr>verification_rules := rules\<rparr>
         | None \<Rightarrow> state\<lparr>verification_rules := JArr []\<rparr>)"

text \<open>
  The code of the current file, when \<open>current_file\<close> and its entry of \<open>modified_code\<close>
  are there and not empty: the guard of \<open>migrate_code\<close> and of \<open>verify_migration\<close>.
\<close>

definition code_provided :: "migration_state \<Rightarrow> (string \<times> string) option" where
  "code_provided state =
     (case current_file state of
        None \<Rightarrow> None
      | Some file \<Rightarrow>
          if file = [] then None
          else (case dict_get (modified_code state) file of
                  None \<Rightarrow> None
                | Some code \<Rightarrow> if code = [] then None else Some (file, code)))"

text \<open>
  \<open>re.search(r"```(?:html)?\n(.*?)```", response, re.DOTALL)\<close>: the group of the
  leftmost match, the shortest text up to the next fence.
\<close>

definition match_fence :: "string \<Rightarrow> string option" where
  "match_fence s =
     (case strip_prefix ''```'' s of
        None \<Rightarrow> None
      | Some r \<Rightarrow>
          (case (case strip_prefix ''html\<newline>'' r of
                   None \<Rightarrow> None
                 | Some r2 \<Rightarrow> find_before ''```'' r2) of
             Some g \<Rightarrow> Some g
           | None \<Rightarrow>
               (case strip_prefix ''\<newline>'' r of
                  None \<Rightarrow> None
                | Some r3 \<Rightarrow> find_before ''```'' r3)))"

fun search_fence :: "string \<Rightarrow> string option" where
  "search_fence [] = None"
| "search_fence (c # cs) =
     (case match_fence (c # cs) of
        Some g \<Rightarrow> Some g
      | None \<Rightarrow> search_fence cs)"

definition migrate_code :: "services \<Rightarrow> migration_state \<Rightarrow> migration_state" where
  "migrate_code sv state =
     (case code_provided state of
        None \<Rightarrow> state
      | Some (file, original_code) \<Rightarrow>
          (let response = cached_llm_invoke sv
                 (MigratePrompt (v1_components state) (v2_components state) (component_map state)
                    (constraints state) (migration_plan state) original_code);
               migrated_code = (case search_fence response of
                                  Some g \<Rightarrow> strip g
                                | None \<Rightarrow> strip response)
           in state\<lparr>modified_code := dict_set (modified_code state) file migrated_code\<rparr>))"

definition verify_migration :: "services \<Rightarrow> migration_state \<Rightarrow> migration_state" where
  "verify_migration sv state =
     (case code_provided state of
        None \<Rightarrow> state
      | Some (file, migrated_code) \<Rightarrow>
          (let response = cached_llm_invoke sv
                 (VerifyPrompt migrated_code (verification_rules state))
           in case json_loads sv (cleaned_response response) of
                Some results \<Rightarrow> state\<lparr>verification_rules := results\<rparr>
              | None \<Rightarrow> state))"

section \<open>The workflow graph\<close>

datatype node =
    LoadContext
  | AnalyzeComponents
  | GenerateMapping
  | GenerateConstraints
  | GeneratePlan
  | GenerateVerificationRules
  | MigrateCode
  | VerifyMigration

text \<open>The edges and the entry point that \<open>build_workflow\<close> adds.\<close>

definition workflow_edges :: "(node \<times> node) list" where
  "workflow_edges =
     [(LoadContext, AnalyzeComponents),
      (AnalyzeComponents, GenerateMapping),
      (GenerateMapping, GenerateConstraints),
      (GenerateConstraints, GeneratePlan),
      (GeneratePlan, GenerateVerificationRules)]"

definition entry_point :: node where
  "entry_point = LoadContext"

fun run_node :: "services \<Rightarrow> node \<Rightarrow> migration_state \<Rightarrow> error + migration_state" where
  "run_node sv LoadContext state = Inr (load_context sv state)"
| "run_node sv AnalyzeComponents state = analyze_components (set_order sv) state"
| "run_node sv GenerateMapping state = Inr (generate_mapping sv state)"
| "run_node sv GenerateConstraints state = Inr (generate_constraints sv state)"
| "run_node sv GeneratePlan state = Inr (generate_plan sv state)"
| "run_node sv GenerateVerificationRules state = Inr (generate_verification_rules sv state)"
| "run_node sv MigrateCode state = Inr (migrate_code sv state)"
| "run_node sv VerifyMigration state = Inr (verify_migration sv state)"

text \<open>
  The compiled graph runs a node and goes on along the edge that leaves it, until a node
  without one; it stops with an error once the limit of steps is used up. An exception of
  a node ends the run.
\<close>

fun run_from :: "services \<Rightarrow> nat \<Rightarrow> node \<Rightarrow> migration_state \<Rightarrow> error + migration_state" where
  "run_from sv 0 n state = Inl GraphRecursionError"
| "run_from sv (Suc limit) n state =
     (case run_node sv n state of
        Inl e \<Rightarrow> Inl e
      | Inr state' \<Rightarrow>
          (case map_of workflow_edges n of
             None \<Rightarrow> Inr state'
           | Some n' \<Rightarrow> run_from sv limit n' state'))"

text \<open>\<open>workflow.invoke(initial_state, {"recursion_limit": 10})\<close>\<close>

definition invoke :: "services \<Rightarrow> migration_state \<Rightarrow> error + migration_state" where
  "invoke sv initial_state = run_from sv 10 entry_point initial_state"

section \<open>Fields and their writers\<close>

text \<open>
  The fields of the state, the test that a field differs between two states, and for
  every stage the fields that its body assigns.
\<close>

datatype field =
    V1_components
  | V2_components
  | Component_map
  | Constraints
  | Migration_plan
  | Verification_rules
  | Current_file
  | Modified_code
  | Action

fun changed :: "field \<Rightarrow> migration_state \<Rightarrow> migration_state \<Rightarrow> bool" where
  "changed V1_components s s' = (v1_components s' \<noteq> v1_components s)"
| "changed V2_components s s' = (v2_components s' \<noteq> v2_components s)"
| "changed Component_map s s' = (component_map s' \<noteq> component_map s)"
| "changed Constraints s s' = (constraints s' \<noteq> constraints s)"
| "changed Migration_plan s s' = (migration_plan s' \<noteq> migration_plan s)"
| "changed Verification_rules s s' = (verification_rules s' \<noteq> verification_rules s)"
| "changed Current_file s s' = (current_file s' \<noteq> current_file s)"
| "changed Modified_code s s' = (modified_code s' \<noteq> modified_code s)"
| "changed Action s s' = (action s' \<noteq> action s)"

fun writes :: "node \<Rightarrow> field list" where
  "writes LoadContext =
     [V1_components, V2_components, Migration_plan, Verification_rules, Constraints]"
| "writes AnalyzeComponents = [V1_components, V2_components]"
| "writes GenerateMapping = [Component_map]"
| "writes GenerateConstraints = [Constraints]"
| "writes GeneratePlan = [Migration_plan]"
| "writes GenerateVerificationRules = [Verification_rules]"
| "writes MigrateCode = [Modified_code]"
| "writes VerifyMigration = [Verification_rules]"

section \<open>The property names in the words of the specification\<close>

text \<open>
  The specification of \<open>AnalyzeComponents\<close> reads: from each line that contains a colon
  and the token \<open>prop\<close> or \<open>property\<close>, in any case, the text before the colon, without
  repetition. \<open>spec_property_names\<close> follows these words, for the comparison with
  \<open>extract_props\<close>.
\<close>

definition spec_property_names :: "string \<Rightarrow> string list" where
  "spec_property_names doc =
     remdups (map (\<lambda>line. split_first line CHR '':'')
       (filter (\<lambda>line. contains '':'' line
                  \<and> (contains ''prop'' (lower line) \<or> contains ''property'' (lower line)))
          (splitlines doc)))"

section \<open>Concrete inputs\<close>

text \<open>
  An index of three chunks in the order of their distance to every query, an index with a
  chunk of a component named \<open>NotFound\<close>, a query with one tag, and a state that maps the
  tag's file to a given v2 file.
\<close>

definition alert_distance :: "string \<Rightarrow> string \<Rightarrow> nat" where
  "alert_distance q t =
     (if t = ''V1 ALERT DOC'' then 0 else if t = ''V2 ALERT DOC'' then 1 else 2)"

definition alert_index :: vector_index where
  "alert_index =
     \<lparr>docstore =
        [\<lparr>page_content = ''V1 ALERT DOC'', source = ''v1_component:modus-alert.tsx''\<rparr>,
         \<lparr>page_content = ''V2 ALERT DOC'', source = ''v2_component:modus-wc-alert.tsx''\<rparr>,
         \<lparr>page_content = ''V2 ALERT DOC PART 2'', source = ''v2_component:modus-wc-alert.tsx''\<rparr>],
      distance = alert_distance\<rparr>"

definition notfound_index :: vector_index where
  "notfound_index =
     \<lparr>docstore = [\<lparr>page_content = ''NF DOC'', source = ''v2_component:NotFound''\<rparr>],
      distance = (\<lambda>q t. 0)\<rparr>"

definition alert_query :: string where
  "alert_query = ''<modus-alert message=\"hi\">''"

definition alert_state :: "string \<Rightarrow> retrieval_state" where
  "alert_state v2_file = [(''Mapping_v1_v2'', [(''modus-alert.tsx'', v2_file)])]"

text \<open>
  For the stages: the state that \<open>MigrationState()\<close> creates, a state with a code snippet
  and one rule, a table with one plain-text row of constraints, a parser that stands for
  \<open>json.loads\<close> on the texts \<open>[]\<close> and \<open>{}\<close> and on texts that are no JSON, a language
  model whose answer is no JSON, and an interpreter that lists a set against the order in
  which its elements were added.
\<close>

definition initial_state :: migration_state where
  "initial_state =
     \<lparr>v1_components = [], v2_components = [], component_map = JObj [], constraints = JArr [],
      migration_plan = JArr [], verification_rules = JArr [], current_file = None,
      modified_code = [], action = ''PENDING''\<rparr>"

definition snippet_state :: migration_state where
  "snippet_state =
     initial_state\<lparr>verification_rules := JArr [JStr ''Check tags''],
                    current_file := Some ''code_snippet'',
                    modified_code := [(''code_snippet'', ''<modus-alert></modus-alert>'')]\<rparr>"

definition sample_loads :: "string \<Rightarrow> json option" where
  "sample_loads s =
     (if s = ''[]'' then Some (JArr []) else if s = ''{}'' then Some (JObj []) else None)"

definition sample_units :: "context_unit list" where
  "sample_units =
     [\<lparr>unit_type = ''constraints'', name = ''styling'', content = ''No inline styles''\<rparr>]"

definition refusing_services :: services where
  "refusing_services =
     \<lparr>json_loads = sample_loads,
      cached_llm_invoke = (\<lambda>p. ''I cannot help''),
      context_units = sample_units,
      set_order = rev\<rparr>"

text \<open>
  A table with a plain-text row of every category that \<open>load_context\<close> assigns from, a
  language model that answers with the empty JSON list, a state with one component of
  each version, and the state that \<open>load_context\<close> returns for the full table.
\<close>

definition full_units :: "context_unit list" where
  "full_units =
     [\<lparr>unit_type = ''v1_components'', name = ''modus-alert.tsx'', content = ''alert''\<rparr>,
      \<lparr>unit_type = ''v2_components'', name = ''modus-wc-alert.tsx'', content = ''wc alert''\<rparr>,
      \<lparr>unit_type = ''migration_plan'', name = ''plan'', content = ''Step 1''\<rparr>,
      \<lparr>unit_type = ''verification_rules'', name = ''rules'', content = ''Check tags''\<rparr>,
      \<lparr>unit_type = ''constraints'', name = ''styling'', content = ''No inline styles''\<rparr>]"

definition full_services :: services where
  "full_services = refusing_services\<lparr>context_units := full_units\<rparr>"

definition answering_services :: services where
  "answering_services = refusing_services\<lparr>cached_llm_invoke := (\<lambda>p. ''[]'')\<rparr>"

definition component_state :: migration_state where
  "component_state =
     initial_state\<lparr>v1_components := [(''modus-alert.tsx'', JObj [])],
                    v2_components := [(''modus-wc-alert.tsx'', JObj [])]\<rparr>"

definition loaded_state :: migration_state where
  "loaded_state = load_context full_services initial_state"

text \<open>
  A documentation text with a heading line, two lines that name a property, a repeated
  name and a line with the token \<open>prop\<close> alone.
\<close>

definition button_doc :: string where
  "button_doc = ''Props:\<newline>size property: small or large\<newline>  color (props) : red\<newline>size property: deprecated\<newline>disabled prop: yes''"

section \<open>Properties of the retrieval\<close>

lemma header_v1: "replace (upper ''v1_component'') ''_'' '' '' = ''V1 COMPONENT''"
  by code_simp

lemma header_v2: "replace (upper ''v2_component'') ''_'' '' '' = ''V2 COMPONENT''"
  by code_simp

lemma section_block_v1:
  "section_block hits ''v1_component'' = ''### V1 COMPONENT\<newline>'' @ bucket_text (v1_component hits)"
  unfolding section_block_def bucket_def bucket_text_def Let_def header_v1 by simp

lemma section_block_v2:
  "section_block hits ''v2_component'' = ''### V2 COMPONENT\<newline>'' @ bucket_text (v2_component hits)"
  unfolding section_block_def bucket_def bucket_text_def Let_def header_v2 by simp

text \<open>
  C7. The result of \<open>retrieve_context_by_section\<close> is the block headed \<open>V1 COMPONENT\<close>,
  a blank line and the block headed \<open>V2 COMPONENT\<close>; each block holds the texts of its
  bucket joined by blank lines, or the placeholder when the bucket is empty.
\<close>

theorem retrieve_by_section_two_blocks:
  "retrieve_context_by_section db code k_search k_pick state =
     ''### V1 COMPONENT\<newline>''
       @ bucket_text (v1_component (collect_hits db code k_search k_pick state))
       @ ''\<newline>\<newline>''
       @ ''### V2 COMPONENT\<newline>''
       @ bucket_text (v2_component (collect_hits db code k_search k_pick state))"
  unfolding retrieve_context_by_section_def Let_def
  by (simp only: list.map join.simps section_block_v1 section_block_v2 append_assoc)

theorem retrieve_by_section_two_blocks_witness:
  "retrieve_context_by_section alert_index alert_query 5 5 (Some (alert_state ''modus-wc-alert.tsx''))
     = ''### V1 COMPONENT\<newline>V1 ALERT DOC\<newline>\<newline>### V2 COMPONENT\<newline>V2 ALERT DOC\<newline>\<newline>V2 ALERT DOC PART 2''"
proof -
  have "collect_hits alert_index alert_query 5 5 (Some (alert_state ''modus-wc-alert.tsx''))
      = \<lparr>v1_component = [''V1 ALERT DOC''],
         v2_component = [''V2 ALERT DOC'', ''V2 ALERT DOC PART 2'']\<rparr>"
    by code_simp
  then show ?thesis
    using retrieve_by_section_two_blocks
      [of alert_index alert_query 5 5 "Some (alert_state ''modus-wc-alert.tsx'')"]
    by (simp add: bucket_text_def)
qed

subsection \<open>Lemmas on the loop over the tags\<close>

lemma dict_get_dict_del:
  "dict_get (dict_del k d) k' = (if k' = k then None else dict_get d k')"
  by (induction d) (auto simp: dict_get_def dict_del_def)

lemma v2_branch_v1_component:
  "v1_component (v2_branch db all_results mapping k_pick v1_key hits) = v1_component hits"
  by (simp add: v2_branch_def Let_def split: option.splits)

lemma v1_branch_v2_component:
  "v2_component (v1_branch all_results k_pick v1_key hits) = v2_component hits"
  by (simp add: v1_branch_def Let_def)

lemma v2_branch_absent:
  "dict_get mapping v1_key = None \<Longrightarrow> v2_branch db all_results mapping k_pick v1_key hits = hits"
  by (simp add: v2_branch_def)

lemma v2_branch_sentinel:
  "dict_get mapping v1_key = Some ''Not Found'' \<Longrightarrow>
   v2_branch db all_results mapping k_pick v1_key hits = hits"
  by (simp add: v2_branch_def)

lemma v2_branch_dict_del:
  assumes "dict_get mapping k = Some ''Not Found''"
  shows "v2_branch db all_results (dict_del k mapping) k_pick v1_key hits
       = v2_branch db all_results mapping k_pick v1_key hits"
proof (cases "v1_key = k")
  case True
  then show ?thesis
    using assms by (simp add: v2_branch_sentinel v2_branch_absent dict_get_dict_del)
next
  case False
  then show ?thesis
    by (simp add: v2_branch_def dict_get_dict_del)
qed

lemma tag_step_dict_del:
  assumes "dict_get mapping k = Some ''Not Found''"
  shows "tag_step db all_results (dict_del k mapping) k_pick = tag_step db all_results mapping k_pick"
  by (intro ext) (simp add: tag_step_def Let_def v2_branch_dict_del [OF assms])

lemma tag_step_v2_component:
  "v2_component (tag_step db all_results mapping k_pick hits tag)
   = v2_component (v2_branch db all_results mapping k_pick (tag @ ''.tsx'') hits)"
  by (simp add: tag_step_def Let_def v1_branch_v2_component)

lemma tag_step_v1_component:
  "v1_component (tag_step db all_results mapping k_pick hits tag)
   = v1_component hits @ map page_content
       (slice_to k_pick (filter (\<lambda>d. source d = ''v1_component:'' @ tag @ ''.tsx'') all_results))"
  by (simp add: tag_step_def Let_def v1_branch_def v2_branch_v1_component slice_to_def)

lemma foldl_tag_step_v1_component:
  "v1_component (foldl (tag_step db all_results mapping k_pick) hits tags)
   = v1_component hits @ concat (map (\<lambda>tag. map page_content
       (slice_to k_pick (filter (\<lambda>d. source d = ''v1_component:'' @ tag @ ''.tsx'') all_results))) tags)"
  by (induction tags arbitrary: hits) (simp_all add: tag_step_v1_component)

lemma foldl_tag_step_empty_mapping:
  "v2_component (foldl (tag_step db all_results [] k_pick) hits tags) = v2_component hits"
  by (induction tags arbitrary: hits)
     (simp_all add: tag_step_v2_component v2_branch_absent dict_get_def)

lemma v2_branch_grows:
  "set (v2_component hits) \<subseteq> set (v2_component (v2_branch db all_results mapping k_pick v1_key hits))"
  by (auto simp: v2_branch_def Let_def split: option.splits)

lemma foldl_tag_step_grows:
  "set (v2_component hits) \<subseteq> set (v2_component (foldl (tag_step db all_results mapping k_pick) hits tags))"
proof (induction tags arbitrary: hits)
  case Nil
  show ?case by simp
next
  case (Cons t ts)
  have "set (v2_component hits) \<subseteq> set (v2_component (tag_step db all_results mapping k_pick hits t))"
    by (simp add: tag_step_v2_component v2_branch_grows)
  also have "\<dots> \<subseteq> set (v2_component (foldl (tag_step db all_results mapping k_pick)
                      (tag_step db all_results mapping k_pick hits t) ts))"
    by (rule Cons.IH)
  finally show ?case by simp
qed

lemma v2_branch_picks:
  assumes "dict_get mapping v1_key = Some v2_file" and "v2_file \<noteq> []" and "v2_file \<noteq> ''Not Found''"
    and "d \<in> set (slice_to k_pick (exact_hits db all_results (''v2_component:'' @ v2_file)))"
  shows "page_content d \<in> set (v2_component (v2_branch db all_results mapping k_pick v1_key hits))"
proof -
  from assms(4) have "exact_hits db all_results (''v2_component:'' @ v2_file) \<noteq> []"
    by (auto simp: slice_to_def split: if_splits)
  with assms show ?thesis
    by (simp add: v2_branch_def Let_def)
qed

lemma foldl_tag_step_picks:
  assumes "tag \<in> set tags"
    and "dict_get mapping (tag @ ''.tsx'') = Some v2_file" and "v2_file \<noteq> []" and "v2_file \<noteq> ''Not Found''"
    and "d \<in> set (slice_to k_pick (exact_hits db all_results (''v2_component:'' @ v2_file)))"
  shows "page_content d \<in> set (v2_component (foldl (tag_step db all_results mapping k_pick) hits tags))"
  using assms(1)
proof (induction tags arbitrary: hits)
  case Nil
  then show ?case by simp
next
  case (Cons t ts)
  show ?case
  proof (cases "t = tag")
    case True
    have "page_content d \<in> set (v2_component (tag_step db all_results mapping k_pick hits t))"
      using v2_branch_picks [OF assms(2-5)] True by (simp add: tag_step_v2_component)
    then show ?thesis
      using foldl_tag_step_grows [of "tag_step db all_results mapping k_pick hits t" db all_results mapping k_pick ts]
      by auto
  next
    case False
    with Cons.prems have "tag \<in> set ts" by simp
    then show ?thesis using Cons.IH by simp
  qed
qed

lemma similarity_search_all:
  "length (docstore db) \<le> k \<Longrightarrow> similarity_search db query k
     = sort_key (\<lambda>d. distance db query (page_content d)) (docstore db)"
  by (simp add: similarity_search_def)

lemma slice_to_all: "int (length xs) \<le> k \<Longrightarrow> slice_to k xs = xs"
  by (simp add: slice_to_def)

lemma filter_sort_key_length:
  "length (filter P (sort_key f xs)) = length (filter P xs)"
  by (simp add: filter_sort)

lemma alert_tags: "fromkeys (findall_tags alert_query) = [''modus-alert'']"
  by code_simp

lemma alert_top1:
  "similarity_search alert_index alert_query 1
     = [\<lparr>page_content = ''V1 ALERT DOC'', source = ''v1_component:modus-alert.tsx''\<rparr>]"
  by code_simp

lemma alert_top2:
  "similarity_search alert_index alert_query 2
     = [\<lparr>page_content = ''V1 ALERT DOC'', source = ''v1_component:modus-alert.tsx''\<rparr>,
        \<lparr>page_content = ''V2 ALERT DOC'', source = ''v2_component:modus-wc-alert.tsx''\<rparr>]"
  by code_simp

lemma alert_hits_top2:
  "collect_hits alert_index alert_query 2 5 (Some (alert_state ''modus-wc-alert.tsx''))
     = \<lparr>v1_component = [''V1 ALERT DOC''], v2_component = [''V2 ALERT DOC'']\<rparr>"
  by code_simp

text \<open>
  C1 (amended). The sentinel of the code is the string \<open>Not Found\<close>. A tag whose mapping
  value is that string leaves the buckets as they are in the v2 branch, and the buckets and
  the result are those of the state whose mapping has no entry for the tag's file.
\<close>

theorem sentinel_skips_v2_branch:
  assumes "dict_get (state_mapping state) (tag @ ''.tsx'') = Some ''Not Found''"
    and "state_mapping state' = dict_del (tag @ ''.tsx'') (state_mapping state)"
  shows "v2_branch db all_results (state_mapping state) k_pick (tag @ ''.tsx'') hits = hits
       \<and> collect_hits db code k_search k_pick state = collect_hits db code k_search k_pick state'
       \<and> retrieve_context_by_section db code k_search k_pick state
         = retrieve_context_by_section db code k_search k_pick state'"
proof -
  have skip: "v2_branch db all_results (state_mapping state) k_pick (tag @ ''.tsx'') hits = hits"
    using assms(1) by (rule v2_branch_sentinel)
  have same: "collect_hits db code k_search k_pick state = collect_hits db code k_search k_pick state'"
    unfolding collect_hits_def Let_def assms(2) tag_step_dict_del [OF assms(1)] ..
  show ?thesis
    using skip same by (simp add: retrieve_context_by_section_def)
qed

theorem sentinel_skips_v2_branch_witness:
  "v2_branch alert_index [] (state_mapping (Some (alert_state ''Not Found''))) 5
      (''modus-alert'' @ ''.tsx'') \<lparr>v1_component = [], v2_component = []\<rparr>
     = \<lparr>v1_component = [], v2_component = []\<rparr>
   \<and> collect_hits alert_index alert_query 3 5 (Some (alert_state ''Not Found''))
     = collect_hits alert_index alert_query 3 5 (Some [(''Mapping_v1_v2'', [])])
   \<and> retrieve_context_by_section alert_index alert_query 3 5 (Some (alert_state ''Not Found''))
     = retrieve_context_by_section alert_index alert_query 3 5 (Some [(''Mapping_v1_v2'', [])])"
proof -
  have a: "dict_get (state_mapping (Some (alert_state ''Not Found''))) (''modus-alert'' @ ''.tsx'')
             = Some ''Not Found''"
    by (simp add: state_mapping_def alert_state_def dict_get_def)
  have b: "state_mapping (Some [(''Mapping_v1_v2'', [])])
             = dict_del (''modus-alert'' @ ''.tsx'') (state_mapping (Some (alert_state ''Not Found'')))"
    by (simp add: state_mapping_def alert_state_def dict_get_def dict_del_def)
  show ?thesis
    by (rule sentinel_skips_v2_branch [OF a b])
qed

text \<open>
  C1 as stated fails: with the mapping value \<open>NotFound\<close> the v2 branch runs, and the text
  of a chunk whose source is \<open>v2_component:NotFound\<close> is in the v2 block, while without
  the mapping entry the v2 block holds the placeholder.
\<close>

theorem literal_NotFound_counterexample:
  "retrieve_context_by_section notfound_index ''<modus-alert>'' 30 5 (Some (alert_state ''NotFound''))
     = ''### V1 COMPONENT\<newline><no content>\<newline>\<newline>### V2 COMPONENT\<newline>NF DOC''
   \<and> retrieve_context_by_section notfound_index ''<modus-alert>'' 30 5 (Some [(''Mapping_v1_v2'', [])])
     = ''### V1 COMPONENT\<newline><no content>\<newline>\<newline>### V2 COMPONENT\<newline><no content>''"
  by code_simp

text \<open>
  C2 (amended). For a tag of the query whose file has a mapped v2 file (an entry that is
  neither empty nor \<open>Not Found\<close>), the text of a chunk of the index with the source
  \<open>v2_component:\<close> followed by the v2 file is in the v2 bucket, when no candidate of the
  broad search has that source, the index holds at most 1000 chunks, and \<open>k_pick\<close> is at
  least the number of chunks with that source.
\<close>

theorem fallback_scan_finds_mapped_chunk:
  assumes tag: "tag \<in> set (fromkeys (findall_tags code))"
    and mapped: "dict_get (state_mapping state) (tag @ ''.tsx'') = Some v2_file"
    and nonempty: "v2_file \<noteq> []" and not_sentinel: "v2_file \<noteq> ''Not Found''"
    and chunk: "d \<in> set (docstore db)" and key: "source d = ''v2_component:'' @ v2_file"
    and no_candidate:
      "filter (\<lambda>c. source c = ''v2_component:'' @ v2_file) (similarity_search db code k_search) = []"
    and cap: "length (docstore db) \<le> 1000"
    and pick:
      "int (length (filter (\<lambda>c. source c = ''v2_component:'' @ v2_file) (docstore db))) \<le> k_pick"
  shows "page_content d \<in> set (v2_component (collect_hits db code k_search k_pick state))"
proof -
  let ?key = "''v2_component:'' @ v2_file"
  let ?all = "similarity_search db code k_search"
  let ?full = "sort_key (\<lambda>c. distance db [] (page_content c)) (docstore db)"
  have full: "similarity_search db [] 1000 = ?full"
    using cap by (rule similarity_search_all)
  have hits: "exact_hits db ?all ?key = filter (\<lambda>c. source c = ?key) ?full"
    using no_candidate by (simp add: exact_hits_def full)
  have "int (length (exact_hits db ?all ?key)) \<le> k_pick"
    unfolding hits filter_sort_key_length by (rule pick)
  then have "slice_to k_pick (exact_hits db ?all ?key) = exact_hits db ?all ?key"
    by (rule slice_to_all)
  moreover have "d \<in> set (exact_hits db ?all ?key)"
    unfolding hits using chunk key by simp
  ultimately have "d \<in> set (slice_to k_pick (exact_hits db ?all ?key))"
    by simp
  then show ?thesis
    unfolding collect_hits_def Let_def
    by (rule foldl_tag_step_picks [OF tag mapped nonempty not_sentinel])
qed

theorem fallback_scan_finds_mapped_chunk_witness:
  "''V2 ALERT DOC PART 2''
     \<in> set (v2_component (collect_hits alert_index alert_query 1 5
                (Some (alert_state ''modus-wc-alert.tsx''))))"
proof -
  let ?d = "\<lparr>page_content = ''V2 ALERT DOC PART 2'', source = ''v2_component:modus-wc-alert.tsx''\<rparr>"
  have tag: "''modus-alert'' \<in> set (fromkeys (findall_tags alert_query))"
    by (simp add: alert_tags)
  have mapped: "dict_get (state_mapping (Some (alert_state ''modus-wc-alert.tsx'')))
                  (''modus-alert'' @ ''.tsx'') = Some ''modus-wc-alert.tsx''"
    by (simp add: state_mapping_def alert_state_def dict_get_def)
  have nonempty: "''modus-wc-alert.tsx'' \<noteq> []" by simp
  have not_sentinel: "''modus-wc-alert.tsx'' \<noteq> ''Not Found''" by simp
  have chunk: "?d \<in> set (docstore alert_index)"
    by (simp add: alert_index_def)
  have key: "source ?d = ''v2_component:'' @ ''modus-wc-alert.tsx''" by simp
  have no_candidate:
    "filter (\<lambda>c. source c = ''v2_component:'' @ ''modus-wc-alert.tsx'')
       (similarity_search alert_index alert_query 1) = []"
    unfolding alert_top1 by simp
  have cap: "length (docstore alert_index) \<le> 1000"
    by (simp add: alert_index_def)
  have pick: "int (length (filter (\<lambda>c. source c = ''v2_component:'' @ ''modus-wc-alert.tsx'')
                     (docstore alert_index))) \<le> 5"
    by (simp add: alert_index_def)
  have "page_content ?d \<in> set (v2_component (collect_hits alert_index alert_query 1 5
                (Some (alert_state ''modus-wc-alert.tsx''))))"
    by (rule fallback_scan_finds_mapped_chunk
          [OF tag mapped nonempty not_sentinel chunk key no_candidate cap pick])
  then show ?thesis by simp
qed

text \<open>
  C2 as stated fails: a chunk with the mapped source that is outside the candidates is not
  in the v2 bucket when another chunk with the same source is among the candidates, since
  the scan of the whole index runs only when the candidates hold no exact match.
\<close>

theorem chunk_outside_candidates_counterexample:
  "''modus-alert'' \<in> set (fromkeys (findall_tags alert_query))
   \<and> dict_get (state_mapping (Some (alert_state ''modus-wc-alert.tsx''))) ''modus-alert.tsx''
       = Some ''modus-wc-alert.tsx''
   \<and> \<lparr>page_content = ''V2 ALERT DOC PART 2'', source = ''v2_component:modus-wc-alert.tsx''\<rparr>
       \<in> set (docstore alert_index)
   \<and> \<lparr>page_content = ''V2 ALERT DOC PART 2'', source = ''v2_component:modus-wc-alert.tsx''\<rparr>
       \<notin> set (similarity_search alert_index alert_query 2)
   \<and> ''V2 ALERT DOC PART 2''
       \<notin> set (v2_component (collect_hits alert_index alert_query 2 5
                  (Some (alert_state ''modus-wc-alert.tsx''))))"
proof -
  have "\<lparr>page_content = ''V2 ALERT DOC PART 2'', source = ''v2_component:modus-wc-alert.tsx''\<rparr>
          \<in> set (docstore alert_index)"
    by (simp add: alert_index_def)
  moreover have "dict_get (state_mapping (Some (alert_state ''modus-wc-alert.tsx''))) ''modus-alert.tsx''
          = Some ''modus-wc-alert.tsx''"
    by (simp add: state_mapping_def alert_state_def dict_get_def)
  ultimately show ?thesis
    unfolding alert_tags alert_top2 alert_hits_top2 by simp
qed

text \<open>
  C10. Without a state the result is the one of an empty mapping: the v2 bucket stays
  empty and its block is the placeholder, and the v1 bucket holds, tag by tag, the first
  \<open>k_pick\<close> texts of the candidates with the tag's v1 source.
\<close>

theorem no_state_skips_v2_branch:
  "retrieve_context_by_section db code k_search k_pick None
     = retrieve_context_by_section db code k_search k_pick (Some [(''Mapping_v1_v2'', [])])
   \<and> v2_component (collect_hits db code k_search k_pick None) = []
   \<and> v1_component (collect_hits db code k_search k_pick None)
     = concat (map (\<lambda>tag. map page_content (slice_to k_pick
         (filter (\<lambda>d. source d = ''v1_component:'' @ tag @ ''.tsx'')
            (similarity_search db code k_search))))
         (fromkeys (findall_tags code)))
   \<and> retrieve_context_by_section db code k_search k_pick None
     = ''### V1 COMPONENT\<newline>''
         @ bucket_text (v1_component (collect_hits db code k_search k_pick None))
         @ ''\<newline>\<newline>### V2 COMPONENT\<newline><no content>''"
proof -
  have m: "state_mapping None = []" "state_mapping (Some [(''Mapping_v1_v2'', [])]) = []"
    by (simp_all add: state_mapping_def dict_get_def)
  have same: "collect_hits db code k_search k_pick None
      = collect_hits db code k_search k_pick (Some [(''Mapping_v1_v2'', [])])"
    by (simp add: collect_hits_def m)
  have v2: "v2_component (collect_hits db code k_search k_pick None) = []"
    by (simp add: collect_hits_def m(1) foldl_tag_step_empty_mapping)
  have v1: "v1_component (collect_hits db code k_search k_pick None)
     = concat (map (\<lambda>tag. map page_content (slice_to k_pick
         (filter (\<lambda>d. source d = ''v1_component:'' @ tag @ ''.tsx'')
            (similarity_search db code k_search))))
         (fromkeys (findall_tags code)))"
    by (simp add: collect_hits_def Let_def foldl_tag_step_v1_component)
  have rendered: "retrieve_context_by_section db code k_search k_pick None
     = ''### V1 COMPONENT\<newline>''
         @ bucket_text (v1_component (collect_hits db code k_search k_pick None))
         @ ''\<newline>\<newline>### V2 COMPONENT\<newline><no content>''"
    by (simp add: retrieve_context_by_section_def Let_def section_block_v1 section_block_v2
          v2 bucket_text_def)
  show ?thesis
    using same v2 v1 rendered by (simp add: retrieve_context_by_section_def)
qed

theorem no_state_skips_v2_branch_witness:
  "retrieve_context_by_section alert_index alert_query 3 5 None
     = ''### V1 COMPONENT\<newline>V1 ALERT DOC\<newline>\<newline>### V2 COMPONENT\<newline><no content>''"
proof -
  have e: "v1_component (collect_hits alert_index alert_query 3 5 None) = [''V1 ALERT DOC'']"
    by code_simp
  have "retrieve_context_by_section alert_index alert_query 3 5 None
     = ''### V1 COMPONENT\<newline>''
         @ bucket_text (v1_component (collect_hits alert_index alert_query 3 5 None))
         @ ''\<newline>\<newline>### V2 COMPONENT\<newline><no content>''"
    using no_state_skips_v2_branch [of alert_index alert_query 3 5] by blast
  then show ?thesis
    unfolding e by (simp add: bucket_text_def)
qed

section \<open>Properties of the stages\<close>

subsection \<open>The fields a stage leaves alone\<close>

lemma frame_load_context:
  "changed f state (load_context sv state) \<Longrightarrow> f \<in> set (writes LoadContext)"
  by (cases f) (auto simp: load_context_def Let_def split: list.splits json.splits option.splits)

lemma frame_analyze_components:
  "analyze_components order state = Inr state' \<Longrightarrow> changed f state state'
     \<Longrightarrow> f \<in> set (writes AnalyzeComponents)"
  by (cases f) (auto simp: analyze_components_def split: sum.splits)

lemma frame_generate_mapping:
  "changed f state (generate_mapping sv state) \<Longrightarrow> f \<in> set (writes GenerateMapping)"
  by (cases f) (auto simp: generate_mapping_def Let_def split: option.splits)

lemma frame_generate_constraints:
  "changed f state (generate_constraints sv state) \<Longrightarrow> f \<in> set (writes GenerateConstraints)"
  by (cases f) (auto simp: generate_constraints_def Let_def split: option.splits)

lemma frame_generate_plan:
  "changed f state (generate_plan sv state) \<Longrightarrow> f \<in> set (writes GeneratePlan)"
  by (cases f) (auto simp: generate_plan_def Let_def split: option.splits)

lemma frame_generate_verification_rules:
  "changed f state (generate_verification_rules sv state)
     \<Longrightarrow> f \<in> set (writes GenerateVerificationRules)"
  by (cases f) (auto simp: generate_verification_rules_def Let_def split: option.splits)

lemma frame_migrate_code:
  "changed f state (migrate_code sv state) \<Longrightarrow> f \<in> set (writes MigrateCode)"
  by (cases f) (auto simp: migrate_code_def Let_def split: option.splits prod.splits)

lemma frame_verify_migration:
  "changed f state (verify_migration sv state) \<Longrightarrow> f \<in> set (writes VerifyMigration)"
  by (cases f) (auto simp: verify_migration_def Let_def split: option.splits prod.splits)

lemma stage_frame:
  assumes "run_node sv n state = Inr state'" and "changed f state state'"
  shows "f \<in> set (writes n)"
proof (cases n)
  case LoadContext
  with assms show ?thesis using frame_load_context [of f state sv] by auto
next
  case AnalyzeComponents
  with assms show ?thesis using frame_analyze_components [of "set_order sv" state state' f] by auto
next
  case GenerateMapping
  with assms show ?thesis using frame_generate_mapping [of f state sv] by auto
next
  case GenerateConstraints
  with assms show ?thesis using frame_generate_constraints [of f state sv] by auto
next
  case GeneratePlan
  with assms show ?thesis using frame_generate_plan [of f state sv] by auto
next
  case GenerateVerificationRules
  with assms show ?thesis using frame_generate_verification_rules [of f state sv] by auto
next
  case MigrateCode
  with assms show ?thesis using frame_migrate_code [of f state sv] by auto
next
  case VerifyMigration
  with assms show ?thesis using frame_verify_migration [of f state sv] by auto
qed

subsection \<open>The fields a stage can change\<close>

lemma writes_load_context:
  "changed V1_components initial_state (load_context full_services initial_state)"
  "changed V2_components initial_state (load_context full_services initial_state)"
  "changed Migration_plan initial_state (load_context full_services initial_state)"
  "changed Verification_rules initial_state (load_context full_services initial_state)"
  "changed Constraints initial_state (load_context full_services initial_state)"
  by code_simp+

lemma writes_analyze_components:
  "analyze_components rev component_state
     = Inr (component_state\<lparr>v1_components := [(''modus-alert.tsx'', JObj [(''props'', JArr [])])],
             v2_components := [(''modus-wc-alert.tsx'', JObj [(''props'', JArr [])])]\<rparr>)"
  by code_simp

lemma writes_generate:
  "changed Component_map initial_state (generate_mapping answering_services initial_state)"
  "changed Constraints loaded_state (generate_constraints refusing_services loaded_state)"
  "changed Migration_plan loaded_state (generate_plan refusing_services loaded_state)"
  "changed Verification_rules loaded_state (generate_verification_rules refusing_services loaded_state)"
  by code_simp+

lemma writes_tail:
  "changed Modified_code snippet_state (migrate_code refusing_services snippet_state)"
  "changed Verification_rules snippet_state (verify_migration answering_services snippet_state)"
  by code_simp+

lemma can_writeI:
  "run_node sv n state = Inr state' \<Longrightarrow> changed f state state'
     \<Longrightarrow> \<exists>sv state state'. run_node sv n state = Inr state' \<and> changed f state state'"
  by blast

lemma stage_can_write:
  assumes "f \<in> set (writes n)"
  shows "\<exists>sv state state'. run_node sv n state = Inr state' \<and> changed f state state'"
proof (cases n)
  case LoadContext
  with assms have "changed f initial_state (load_context full_services initial_state)"
    using writes_load_context by auto
  then show ?thesis
    unfolding LoadContext by (rule can_writeI [rotated]) simp
next
  case AnalyzeComponents
  with assms have "f = V1_components \<or> f = V2_components" by simp
  then have "changed f component_state
     (component_state\<lparr>v1_components := [(''modus-alert.tsx'', JObj [(''props'', JArr [])])],
             v2_components := [(''modus-wc-alert.tsx'', JObj [(''props'', JArr [])])]\<rparr>)"
    by (auto simp: component_state_def)
  then show ?thesis
    unfolding AnalyzeComponents
    by (rule can_writeI [where sv = refusing_services, rotated])
       (simp add: writes_analyze_components refusing_services_def)
next
  case GenerateMapping
  with assms have "changed f initial_state (generate_mapping answering_services initial_state)"
    using writes_generate(1) by simp
  then show ?thesis
    unfolding GenerateMapping by (rule can_writeI [rotated]) simp
next
  case GenerateConstraints
  with assms have "changed f loaded_state (generate_constraints refusing_services loaded_state)"
    using writes_generate(2) by simp
  then show ?thesis
    unfolding GenerateConstraints by (rule can_writeI [rotated]) simp
next
  case GeneratePlan
  with assms have "changed f loaded_state (generate_plan refusing_services loaded_state)"
    using writes_generate(3) by simp
  then show ?thesis
    unfolding GeneratePlan by (rule can_writeI [rotated]) simp
next
  case GenerateVerificationRules
  with assms have "changed f loaded_state (generate_verification_rules refusing_services loaded_state)"
    using writes_generate(4) by simp
  then show ?thesis
    unfolding GenerateVerificationRules by (rule can_writeI [rotated]) simp
next
  case MigrateCode
  with assms have "changed f snippet_state (migrate_code refusing_services snippet_state)"
    using writes_tail(1) by simp
  then show ?thesis
    unfolding MigrateCode by (rule can_writeI [rotated]) simp
next
  case VerifyMigration
  with assms have "changed f snippet_state (verify_migration answering_services snippet_state)"
    using writes_tail(2) by simp
  then show ?thesis
    unfolding VerifyMigration by (rule can_writeI [rotated]) simp
qed

text \<open>
  C3 (amended). A stage can change a field of the state exactly when its body assigns the
  field, as \<open>writes\<close> lists it: \<open>component_map\<close> and \<open>modified_code\<close> have one writer,
  \<open>current_file\<close> and \<open>action\<close> have none, the component tables, \<open>constraints\<close> and
  \<open>migration_plan\<close> have two, of which one is \<open>LoadContext\<close>, and \<open>verification_rules\<close>
  has \<open>LoadContext\<close>, \<open>GenerateVerificationRules\<close> and \<open>VerifyMigration\<close>.
\<close>

theorem stage_changes_exactly_its_fields:
  "(\<exists>sv state state'. run_node sv n state = Inr state' \<and> changed f state state')
     \<longleftrightarrow> f \<in> set (writes n)"
  using stage_frame stage_can_write by blast

theorem stage_changes_exactly_its_fields_witness:
  "Constraints \<in> set (writes GenerateConstraints) \<and> Constraints \<in> set (writes LoadContext)
   \<and> \<not> (\<exists>sv state state'. run_node sv GenerateMapping state = Inr state'
           \<and> changed Constraints state state')"
proof -
  have a: "run_node refusing_services GenerateConstraints loaded_state
             = Inr (generate_constraints refusing_services loaded_state)
           \<and> changed Constraints loaded_state (generate_constraints refusing_services loaded_state)"
    using writes_generate(2) by simp
  have b: "run_node full_services LoadContext initial_state
             = Inr (load_context full_services initial_state)
           \<and> changed Constraints initial_state (load_context full_services initial_state)"
    using writes_load_context(5) by simp
  have c: "Constraints \<notin> set (writes GenerateMapping)" by simp
  show ?thesis
    using a b c
      stage_changes_exactly_its_fields [of GenerateConstraints Constraints]
      stage_changes_exactly_its_fields [of LoadContext Constraints]
      stage_changes_exactly_its_fields [of GenerateMapping Constraints]
    by blast
qed

text \<open>
  C3 as stated fails: in one run \<open>LoadContext\<close> sets \<open>constraints\<close> from the table and
  \<open>GenerateConstraints\<close> sets it again, here back to the empty list after an answer of
  the language model that is no JSON.
\<close>

theorem constraints_two_writers_counterexample:
  "run_node refusing_services LoadContext initial_state
     = Inr (initial_state\<lparr>constraints := JArr [JStr ''No inline styles'']\<rparr>)
   \<and> changed Constraints initial_state (initial_state\<lparr>constraints := JArr [JStr ''No inline styles'']\<rparr>)
   \<and> run_node refusing_services GenerateConstraints
        (initial_state\<lparr>constraints := JArr [JStr ''No inline styles'']\<rparr>)
     = Inr initial_state
   \<and> changed Constraints (initial_state\<lparr>constraints := JArr [JStr ''No inline styles'']\<rparr>)
        initial_state"
  by code_simp

subsection \<open>The property names of a documentation text\<close>

lemma set_add_set: "set (set_add xs x) = insert x (set xs)"
  by (auto simp: set_add_def)

lemma set_add_distinct: "distinct xs \<Longrightarrow> distinct (set_add xs x)"
  by (simp add: set_add_def)

lemma add_prop_distinct: "distinct props \<Longrightarrow> distinct (add_prop props line)"
  by (simp add: add_prop_def Let_def set_add_distinct)

lemma add_prop_set:
  "set (add_prop props line) =
     set props \<union> {strip (split_first l CHR '':'') | l.
        l = line \<and> contains '':'' l
        \<and> (contains ''props'' (lower l) \<or> contains ''property'' (lower l))
        \<and> strip (split_first l CHR '':'') \<noteq> []
        \<and> lower (strip (split_first l CHR '':'')) \<notin> {''props'', ''properties''}}"
  by (auto simp: add_prop_def Let_def set_add_set)

lemma foldl_add_prop_distinct:
  "distinct props \<Longrightarrow> distinct (foldl add_prop props lines)"
  by (induction lines arbitrary: props) (simp_all add: add_prop_distinct)

lemma foldl_add_prop_set:
  "set (foldl add_prop props lines) =
     set props \<union> {strip (split_first l CHR '':'') | l.
        l \<in> set lines \<and> contains '':'' l
        \<and> (contains ''props'' (lower l) \<or> contains ''property'' (lower l))
        \<and> strip (split_first l CHR '':'') \<noteq> []
        \<and> lower (strip (split_first l CHR '':'')) \<notin> {''props'', ''properties''}}"
proof (induction lines arbitrary: props)
  case Nil
  show ?case by simp
next
  case (Cons line lines)
  show ?case
    unfolding foldl_Cons Cons.IH add_prop_set by auto
qed

lemma splitlines_empty: "splitlines [] = []"
  by (simp add: splitlines_def)

lemma extract_props_string:
  "order [] = [] \<Longrightarrow>
   extract_props order (JStr doc) = Inr (order (foldl add_prop [] (splitlines doc)))"
  by (cases doc) (simp_all add: extract_props_def splitlines_empty)

lemma analyze_all_each:
  "analyze_all order comps = Inr comps' \<Longrightarrow>
   list_all2 (\<lambda>x y. fst y = fst x \<and> analyze_component order (snd x) = Inr (snd y)) comps comps'"
  by (induction comps arbitrary: comps') (auto split: sum.splits)

lemma button_props:
  "foldl add_prop [] (splitlines button_doc) = [''size property'', ''color (props)'']"
  by code_simp

text \<open>
  C4 (amended). \<open>analyze_components\<close> calls no language model. For a component with a
  documentation text it stores as \<open>props\<close> a list, without repetition and in the order in
  which the interpreter lists the set, of the names taken from the lines that contain a
  colon and \<open>props\<close> or \<open>property\<close> in any case: the text before the first colon without the
  white space around it, when it is not empty and is not \<open>props\<close> or \<open>properties\<close> in any
  case. A run of the stage that returns does this to every component of both tables.
\<close>

theorem analyze_component_stores_property_names:
  assumes "dict_get fs ''documentation'' = Some (JStr doc)"
    and "\<And>xs. distinct xs \<Longrightarrow> distinct (order xs) \<and> set (order xs) = set xs"
  shows "analyze_component order (JObj fs)
           = Inr (JObj (dict_set fs ''props''
                   (JArr (map JStr (order (foldl add_prop [] (splitlines doc)))))))
       \<and> distinct (order (foldl add_prop [] (splitlines doc)))
       \<and> set (order (foldl add_prop [] (splitlines doc))) =
           {strip (split_first l CHR '':'') | l.
              l \<in> set (splitlines doc) \<and> contains '':'' l
              \<and> (contains ''props'' (lower l) \<or> contains ''property'' (lower l))
              \<and> strip (split_first l CHR '':'') \<noteq> []
              \<and> lower (strip (split_first l CHR '':'')) \<notin> {''props'', ''properties''}}
       \<and> run_node (sv\<lparr>json_loads := parser, cached_llm_invoke := model\<rparr>) AnalyzeComponents state
           = analyze_components (set_order sv) state
       \<and> (analyze_components order state = Inr state' \<longrightarrow>
            list_all2 (\<lambda>x y. fst y = fst x \<and> analyze_component order (snd x) = Inr (snd y))
              (v1_components state) (v1_components state')
          \<and> list_all2 (\<lambda>x y. fst y = fst x \<and> analyze_component order (snd x) = Inr (snd y))
              (v2_components state) (v2_components state'))"
proof -
  have names: "distinct (foldl add_prop [] (splitlines doc))"
    by (rule foldl_add_prop_distinct) simp
  have "distinct ([] :: string list)" by simp
  then have "set (order []) = set ([] :: string list)"
    using assms(2) by blast
  then have empty: "order [] = []" by simp
  have "analyze_component order (JObj fs)
           = Inr (JObj (dict_set fs ''props''
                   (JArr (map JStr (order (foldl add_prop [] (splitlines doc)))))))"
    using assms(1) by (simp add: analyze_component_def extract_props_string [of order, OF empty])
  moreover have "distinct (order (foldl add_prop [] (splitlines doc)))"
    using assms(2) [OF names] by simp
  moreover have "set (order (foldl add_prop [] (splitlines doc))) =
           {strip (split_first l CHR '':'') | l.
              l \<in> set (splitlines doc) \<and> contains '':'' l
              \<and> (contains ''props'' (lower l) \<or> contains ''property'' (lower l))
              \<and> strip (split_first l CHR '':'') \<noteq> []
              \<and> lower (strip (split_first l CHR '':'')) \<notin> {''props'', ''properties''}}"
  proof -
    have "set (order (foldl add_prop [] (splitlines doc))) = set (foldl add_prop [] (splitlines doc))"
      using assms(2) [OF names] by simp
    then show ?thesis
      unfolding foldl_add_prop_set by simp
  qed
  moreover have "analyze_components order state = Inr state' \<longrightarrow>
            list_all2 (\<lambda>x y. fst y = fst x \<and> analyze_component order (snd x) = Inr (snd y))
              (v1_components state) (v1_components state')
          \<and> list_all2 (\<lambda>x y. fst y = fst x \<and> analyze_component order (snd x) = Inr (snd y))
              (v2_components state) (v2_components state')"
    by (auto simp: analyze_components_def analyze_all_each split: sum.splits)
  ultimately show ?thesis by simp
qed

text \<open>
  Two orders of the interpreter, the order in which the names were added and the reverse
  of it: both lists are results of the stage.
\<close>

theorem analyze_component_stores_property_names_witness:
  "analyze_component (\<lambda>xs. xs)
       (JObj [(''name'', JStr ''modus-button''), (''documentation'', JStr button_doc)])
     = Inr (JObj [(''name'', JStr ''modus-button''), (''documentation'', JStr button_doc),
                  (''props'', JArr [JStr ''size property'', JStr ''color (props)''])])
   \<and> analyze_component rev
       (JObj [(''name'', JStr ''modus-button''), (''documentation'', JStr button_doc)])
     = Inr (JObj [(''name'', JStr ''modus-button''), (''documentation'', JStr button_doc),
                  (''props'', JArr [JStr ''color (props)'', JStr ''size property''])])
   \<and> list_all2 (\<lambda>x y. fst y = fst x \<and> analyze_component rev (snd x) = Inr (snd y))
        [(''modus-alert.tsx'', JObj [])] [(''modus-alert.tsx'', JObj [(''props'', JArr [])])]"
proof -
  let ?fs = "[(''name'', JStr ''modus-button''), (''documentation'', JStr button_doc)]"
  let ?state' = "component_state\<lparr>v1_components := [(''modus-alert.tsx'', JObj [(''props'', JArr [])])],
             v2_components := [(''modus-wc-alert.tsx'', JObj [(''props'', JArr [])])]\<rparr>"
  have a: "dict_get ?fs ''documentation'' = Some (JStr button_doc)"
    by (simp add: dict_get_def)
  have kept: "\<And>xs :: string list. distinct xs \<Longrightarrow> distinct ((\<lambda>xs. xs) xs) \<and> set ((\<lambda>xs. xs) xs) = set xs"
    by simp
  have reversed: "\<And>xs :: string list. distinct xs \<Longrightarrow> distinct (rev xs) \<and> set (rev xs) = set xs"
    by simp
  note inst_same = analyze_component_stores_property_names
    [where order = "\<lambda>xs. xs" and state = component_state and state' = ?state', OF a kept]
  note inst_back = analyze_component_stores_property_names
    [where order = rev and state = component_state and state' = ?state', OF a reversed]
  have "analyze_component (\<lambda>xs. xs) (JObj ?fs)
     = Inr (JObj (dict_set ?fs ''props''
             (JArr (map JStr ((\<lambda>xs. xs) (foldl add_prop [] (splitlines button_doc)))))))"
    using inst_same by blast
  then have first: "analyze_component (\<lambda>xs. xs) (JObj ?fs)
     = Inr (JObj [(''name'', JStr ''modus-button''), (''documentation'', JStr button_doc),
                  (''props'', JArr [JStr ''size property'', JStr ''color (props)''])])"
    unfolding button_props by simp
  have "analyze_component rev (JObj ?fs)
     = Inr (JObj (dict_set ?fs ''props''
             (JArr (map JStr (rev (foldl add_prop [] (splitlines button_doc)))))))"
    using inst_back by blast
  then have second: "analyze_component rev (JObj ?fs)
     = Inr (JObj [(''name'', JStr ''modus-button''), (''documentation'', JStr button_doc),
                  (''props'', JArr [JStr ''color (props)'', JStr ''size property''])])"
    unfolding button_props by simp
  have "list_all2 (\<lambda>x y. fst y = fst x \<and> analyze_component rev (snd x) = Inr (snd y))
          (v1_components component_state) (v1_components ?state')"
    using inst_back writes_analyze_components by blast
  then have third: "list_all2 (\<lambda>x y. fst y = fst x \<and> analyze_component rev (snd x) = Inr (snd y))
        [(''modus-alert.tsx'', JObj [])] [(''modus-alert.tsx'', JObj [(''props'', JArr [])])]"
    by (simp add: component_state_def)
  show ?thesis
    using first second third by blast
qed

text \<open>
  C4 as stated fails: a line with a colon and the token \<open>prop\<close> gives no name, since
  the code looks for \<open>props\<close>, and the heading \<open>Props\<close> before a colon is left out. The
  results are empty lists, whatever the order in which the interpreter lists a set.
\<close>

theorem prop_token_counterexample:
  "spec_property_names ''size prop: small'' = [''size prop'']
   \<and> extract_props rev (JStr ''size prop: small'') = Inr []
   \<and> spec_property_names ''Props: size, color'' = [''Props'']
   \<and> extract_props rev (JStr ''Props: size, color'') = Inr []"
  by code_simp

subsection \<open>Answers of the language model that are no JSON\<close>

lemma refusing_answer_unparsable:
  "json_loads refusing_services (cleaned_response (cached_llm_invoke refusing_services p)) = None"
  by (simp add: refusing_services_def) code_simp

lemma snippet_code_provided:
  "code_provided snippet_state = Some (''code_snippet'', ''<modus-alert></modus-alert>'')"
  by code_simp

text \<open>
  C5. When the code is there and the answer of the language model does not parse,
  \<open>verify_migration\<close> returns the state as it was, with the same \<open>verification_rules\<close>;
  \<open>generate_verification_rules\<close> sets the field to the empty list when its answer does
  not parse.
\<close>

theorem verify_migration_keeps_rules_on_parse_failure:
  assumes "code_provided state = Some (file, migrated_code)"
    and "json_loads sv (cleaned_response
           (cached_llm_invoke sv (VerifyPrompt migrated_code (verification_rules state)))) = None"
  shows "verify_migration sv state = state
       \<and> verification_rules (verify_migration sv state) = verification_rules state
       \<and> (json_loads sv (cleaned_response (cached_llm_invoke sv
              (RulesPrompt (migration_plan state) (constraints state) (component_map state)))) = None
            \<longrightarrow> verification_rules (generate_verification_rules sv state) = JArr [])"
  using assms by (simp add: verify_migration_def generate_verification_rules_def)

theorem verify_migration_keeps_rules_on_parse_failure_witness:
  "verification_rules (verify_migration refusing_services snippet_state) = JArr [JStr ''Check tags'']
   \<and> verification_rules (generate_verification_rules refusing_services snippet_state) = JArr []"
proof -
  have rules: "verification_rules snippet_state = JArr [JStr ''Check tags'']"
    by (simp add: snippet_state_def)
  show ?thesis
    using verify_migration_keeps_rules_on_parse_failure
      [of snippet_state "''code_snippet''" "''<modus-alert></modus-alert>''" refusing_services,
       OF snippet_code_provided refusing_answer_unparsable]
      refusing_answer_unparsable rules
    by simp
qed

text \<open>
  C6. When the answer to the mapping prompt does not parse, \<open>generate_mapping\<close> returns
  the state with the empty \<open>component_map\<close> and raises nothing, the edge from it leads to
  \<open>GenerateConstraints\<close>, and the run goes on there and through the rest of the chain.
\<close>

theorem unparsable_mapping_continues:
  assumes "json_loads sv (cleaned_response (cached_llm_invoke sv
             (MappingPrompt (dict_keys (v1_components state)) (dict_keys (v2_components state)))))
           = None"
  shows "run_node sv GenerateMapping state = Inr (state\<lparr>component_map := JObj []\<rparr>)
       \<and> component_map (generate_mapping sv state) = JObj []
       \<and> map_of workflow_edges GenerateMapping = Some GenerateConstraints
       \<and> run_from sv (Suc limit) GenerateMapping state
           = run_from sv limit GenerateConstraints (state\<lparr>component_map := JObj []\<rparr>)
       \<and> run_from sv (Suc (Suc (Suc (Suc limit)))) GenerateMapping state
           = Inr (generate_verification_rules sv (generate_plan sv
                   (generate_constraints sv (state\<lparr>component_map := JObj []\<rparr>))))"
proof -
  have m: "generate_mapping sv state = state\<lparr>component_map := JObj []\<rparr>"
    using assms by (simp add: generate_mapping_def)
  have e: "map_of workflow_edges GenerateMapping = Some GenerateConstraints"
    "map_of workflow_edges GenerateConstraints = Some GeneratePlan"
    "map_of workflow_edges GeneratePlan = Some GenerateVerificationRules"
    "map_of workflow_edges GenerateVerificationRules = None"
    by (simp_all add: workflow_edges_def)
  show ?thesis
    by (simp add: m e)
qed

theorem unparsable_mapping_continues_witness:
  "run_from refusing_services 4 GenerateMapping loaded_state
     = Inr (loaded_state\<lparr>component_map := JObj [], constraints := JArr [],
                          migration_plan := JArr [], verification_rules := JArr []\<rparr>)"
proof -
  have chain: "run_from refusing_services (Suc (Suc (Suc (Suc 0)))) GenerateMapping loaded_state
      = Inr (generate_verification_rules refusing_services (generate_plan refusing_services
               (generate_constraints refusing_services (loaded_state\<lparr>component_map := JObj []\<rparr>))))"
    using unparsable_mapping_continues [of refusing_services loaded_state 0,
      OF refusing_answer_unparsable] by blast
  have final: "generate_verification_rules refusing_services (generate_plan refusing_services
               (generate_constraints refusing_services (loaded_state\<lparr>component_map := JObj []\<rparr>)))
      = loaded_state\<lparr>component_map := JObj [], constraints := JArr [],
                          migration_plan := JArr [], verification_rules := JArr []\<rparr>"
    by (simp add: generate_verification_rules_def generate_plan_def generate_constraints_def
          refusing_answer_unparsable)
  have four: "(4::nat) = Suc (Suc (Suc (Suc 0)))" by simp
  show ?thesis
    unfolding four chain final ..
qed

text \<open>
  C9. When its answer does not parse, each of the four generating stages returns the
  state with its own field set to the empty value and every other field as it was.
\<close>

theorem parse_failure_resets_only_own_field:
  "(json_loads sv (cleaned_response (cached_llm_invoke sv
        (MappingPrompt (dict_keys (v1_components state)) (dict_keys (v2_components state))))) = None
      \<longrightarrow> generate_mapping sv state = state\<lparr>component_map := JObj []\<rparr>)
   \<and> (json_loads sv (cleaned_response (cached_llm_invoke sv
        (ConstraintsPrompt (component_map state)))) = None
      \<longrightarrow> generate_constraints sv state = state\<lparr>constraints := JArr []\<rparr>)
   \<and> (json_loads sv (cleaned_response (cached_llm_invoke sv
        (PlanPrompt (component_map state) (constraints state)))) = None
      \<longrightarrow> generate_plan sv state = state\<lparr>migration_plan := JArr []\<rparr>)
   \<and> (json_loads sv (cleaned_response (cached_llm_invoke sv
        (RulesPrompt (migration_plan state) (constraints state) (component_map state)))) = None
      \<longrightarrow> generate_verification_rules sv state = state\<lparr>verification_rules := JArr []\<rparr>)"
  by (simp add: generate_mapping_def generate_constraints_def generate_plan_def
        generate_verification_rules_def)

theorem parse_failure_resets_only_own_field_witness:
  "generate_mapping refusing_services snippet_state = snippet_state\<lparr>component_map := JObj []\<rparr>
   \<and> generate_constraints refusing_services snippet_state = snippet_state\<lparr>constraints := JArr []\<rparr>
   \<and> generate_plan refusing_services snippet_state = snippet_state\<lparr>migration_plan := JArr []\<rparr>
   \<and> generate_verification_rules refusing_services snippet_state
       = snippet_state\<lparr>verification_rules := JArr []\<rparr>"
  using parse_failure_resets_only_own_field [of refusing_services snippet_state]
  by (simp add: refusing_answer_unparsable)

text \<open>
  C8. The answer \<open>null\<close>, bare or between fences, is the text of a JSON value, but the
  characters \<open>n\<close>, \<open>j\<close>, \<open>s\<close> and \<open>o\<close> are stripped with the fence, so the parser
  receives \<open>ull\<close>.
\<close>

theorem null_response_not_parsed:
  "cleaned_response ''null'' = ''ull''
   \<and> cleaned_response ''```json\<newline>null\<newline>```'' = ''ull''
   \<and> component_map (generate_mapping (sv\<lparr>cached_llm_invoke := (\<lambda>p. ''null'')\<rparr>) state)
       = (case json_loads sv ''ull'' of Some mapping \<Rightarrow> mapping | None \<Rightarrow> JObj [])"
proof -
  have a: "cleaned_response ''null'' = ''ull''" by code_simp
  have b: "cleaned_response ''```json\<newline>null\<newline>```'' = ''ull''" by code_simp
  show ?thesis
    by (simp add: a b generate_mapping_def split: option.splits)
qed

end
